theory Spec2Isabelle
  imports Main
begin

section \<open>Proxy configuration of Strix (\<^verbatim>\<open>strix/proxy_config.py\<close>)\<close>

text \<open>
  The module holds three optional proxy URLs, validates them when a \<^verbatim>\<open>ProxyConfig\<close> is
  built, resolves the proxy of a traffic class and renders it in the shapes the client
  libraries expect. Exceptions are values of a sum type, the dictionaries the methods build
  are association lists in insertion order, and the process environment and the module's
  global variable are fields of an explicit state.
\<close>

subsection \<open>Exceptions\<close>

text \<open>
  A Python exception: its class, its message and its \<^verbatim>\<open>__cause__\<close> (what follows
  \<^verbatim>\<open>from\<close> in a \<^verbatim>\<open>raise\<close> statement, absent when the statement has none).
\<close>

datatype exn = Exn (exn_class: string) (message: string) (cause: "exn option")

definition ValueError :: "string \<Rightarrow> exn option \<Rightarrow> exn" where
  "ValueError msg c = Exn ''ValueError'' msg c"

subsection \<open>The URL parser\<close>

text \<open>
  \<^verbatim>\<open>urllib.parse.urlparse\<close> belongs to the standard library, not to this module. The module
  reads three attributes of its result: \<^verbatim>\<open>scheme\<close>, \<^verbatim>\<open>hostname\<close> and \<^verbatim>\<open>port\<close>; the call
  itself can raise, and so can the \<^verbatim>\<open>port\<close> property (on a port that is not a decimal
  number, or one above 65535). Every function of the module that parses takes the parser as
  its first argument, so the theorems hold for whatever the library does; the errors a
  parser returns stand for instances of \<^verbatim>\<open>Exception\<close>.
\<close>

record ParseResult =
  scheme :: string
  hostname :: "string option"
  port :: "exn + int option"

type_synonym url_parser = "string \<Rightarrow> exn + ParseResult"

subsection \<open>Truthiness\<close>

text \<open>
  \<^verbatim>\<open>if x:\<close> and \<^verbatim>\<open>a or b\<close> test the truth value of an object: \<^verbatim>\<open>None\<close>, the empty string
  and the integer zero are false.
\<close>

definition truthy :: "string option \<Rightarrow> bool" where
  "truthy x = (case x of None \<Rightarrow> False | Some s \<Rightarrow> s \<noteq> [])"

definition truthy_int :: "int option \<Rightarrow> bool" where
  "truthy_int x = (case x of None \<Rightarrow> False | Some n \<Rightarrow> n \<noteq> 0)"

definition py_or :: "string option \<Rightarrow> string option \<Rightarrow> string option" where
  "py_or a b = (if truthy a then a else b)"

subsection \<open>ProxyConfig\<close>

record ProxyConfig =
  tools_proxy :: "string option"
  llm_proxy :: "string option"
  all_proxy :: "string option"

definition supported_schemes :: "string list" where
  "supported_schemes = [''http'', ''https'', ''socks5'', ''socks5h'']"

text \<open>The body of the \<^verbatim>\<open>try\<close> block of \<^verbatim>\<open>_validate_proxy_url\<close>.\<close>

definition validate_try :: "url_parser \<Rightarrow> string \<Rightarrow> string \<Rightarrow> exn + unit" where
  "validate_try urlparse proxy_url env_var_name =
     (case urlparse proxy_url of
        Inl e \<Rightarrow> Inl e
      | Inr parsed \<Rightarrow>
          if scheme parsed \<notin> set supported_schemes then
            Inl (ValueError
              (''Invalid proxy scheme in '' @ env_var_name @ '': '' @ scheme parsed @ ''. ''
                 @ ''Supported schemes: http, https, socks5, socks5h'') None)
          else if \<not> truthy (hostname parsed) then
            Inl (ValueError (''Missing hostname in '' @ env_var_name @ '': '' @ proxy_url) None)
          else
            (case port parsed of
               Inl e \<Rightarrow> Inl e
             | Inr p \<Rightarrow>
                 if \<not> truthy_int p then
                   Inl (ValueError (''Missing port in '' @ env_var_name @ '': '' @ proxy_url) None)
                 else Inr ()))"

text \<open>
  \<^verbatim>\<open>_validate_proxy_url\<close>: the handler \<^verbatim>\<open>except Exception as e\<close> catches whatever the body
  raised, the module's own errors included, and raises a new error \<^verbatim>\<open>from e\<close>.
\<close>

definition validate_proxy_url :: "url_parser \<Rightarrow> string \<Rightarrow> string \<Rightarrow> exn + unit" where
  "validate_proxy_url urlparse proxy_url env_var_name =
     (case validate_try urlparse proxy_url env_var_name of
        Inl e \<Rightarrow>
          Inl (ValueError (''Invalid proxy URL in '' @ env_var_name @ '': '' @ proxy_url) (Some e))
      | Inr u \<Rightarrow> Inr u)"

text \<open>The loop of \<^verbatim>\<open>__post_init__\<close> over the named fields; a false value is skipped.\<close>

fun post_init_loop :: "url_parser \<Rightarrow> (string \<times> string option) list \<Rightarrow> exn + unit" where
  "post_init_loop urlparse [] = Inr ()"
| "post_init_loop urlparse ((proxy_name, proxy_url) # rest) =
     (case proxy_url of
        None \<Rightarrow> post_init_loop urlparse rest
      | Some u \<Rightarrow>
          if u \<noteq> [] then
            (case validate_proxy_url urlparse u proxy_name of
               Inl e \<Rightarrow> Inl e
             | Inr _ \<Rightarrow> post_init_loop urlparse rest)
          else post_init_loop urlparse rest)"

definition post_init :: "url_parser \<Rightarrow> ProxyConfig \<Rightarrow> exn + unit" where
  "post_init urlparse self =
     post_init_loop urlparse
       [(''STRIX_PROXY_TOOLS'', tools_proxy self),
        (''STRIX_PROXY_LLM'', llm_proxy self),
        (''STRIX_PROXY_ALL'', all_proxy self)]"

text \<open>
  The constructor the \<^verbatim>\<open>@dataclass\<close> decorator generates: it stores the three arguments
  and calls \<^verbatim>\<open>__post_init__\<close>; when that raises, the caller gets no object.
\<close>

definition ProxyConfig_init ::
  "url_parser \<Rightarrow> string option \<Rightarrow> string option \<Rightarrow> string option \<Rightarrow> exn + ProxyConfig" where
  "ProxyConfig_init urlparse t l a =
     (let self = \<lparr>tools_proxy = t, llm_proxy = l, all_proxy = a\<rparr>
      in case post_init urlparse self of Inl e \<Rightarrow> Inl e | Inr _ \<Rightarrow> Inr self)"

definition get_tools_proxy :: "ProxyConfig \<Rightarrow> string option" where
  "get_tools_proxy self = py_or (tools_proxy self) (all_proxy self)"

definition get_llm_proxy :: "ProxyConfig \<Rightarrow> string option" where
  "get_llm_proxy self = py_or (llm_proxy self) (all_proxy self)"

type_synonym dict = "(string \<times> string) list"

definition get_requests_proxies :: "ProxyConfig \<Rightarrow> string \<Rightarrow> dict option" where
  "get_requests_proxies self proxy_type =
     (let proxy_url = (if proxy_type = ''tools'' then get_tools_proxy self else get_llm_proxy self)
      in case proxy_url of
           None \<Rightarrow> None
         | Some u \<Rightarrow> if u = [] then None else Some [(''http'', u), (''https'', u)])"

definition get_httpx_proxies :: "url_parser \<Rightarrow> ProxyConfig \<Rightarrow> string \<Rightarrow> exn + dict option" where
  "get_httpx_proxies urlparse self proxy_type =
     (let proxy_url = (if proxy_type = ''tools'' then get_tools_proxy self else get_llm_proxy self)
      in case proxy_url of
           None \<Rightarrow> Inr None
         | Some u \<Rightarrow>
             if u = [] then Inr None
             else
               (case urlparse u of
                  Inl e \<Rightarrow> Inl e
                | Inr parsed \<Rightarrow>
                    if scheme parsed \<in> set [''socks5'', ''socks5h''] then
                      Inr (Some [(''_socks_proxy'', u)])
                    else Inr (Some [(''http://'', u), (''https://'', u)])))"

text \<open>\<^verbatim>\<open>d[key] = value\<close> on a dictionary: an existing key keeps its place.\<close>

fun dict_set :: "dict \<Rightarrow> string \<Rightarrow> string \<Rightarrow> dict" where
  "dict_set [] key v = [(key, v)]"
| "dict_set ((k, w) # rest) key v =
     (if k = key then (k, v) # rest else (k, w) # dict_set rest key v)"

definition get_litellm_proxy_env :: "ProxyConfig \<Rightarrow> dict" where
  "get_litellm_proxy_env self =
     (let env_vars = []
      in case get_llm_proxy self of
           None \<Rightarrow> env_vars
         | Some u \<Rightarrow>
             if u = [] then env_vars
             else dict_set (dict_set env_vars ''HTTP_PROXY'' u) ''HTTPS_PROXY'' u)"

subsection \<open>The loader and the process-wide instance\<close>

text \<open>
  The state the module-level functions act on: the process environment, the module's
  global variable, and the number of \<^verbatim>\<open>ProxyConfig\<close> objects built so far. An instance is
  the number of its allocation together with its fields: two instances are the same object
  exactly when the numbers agree, and since the module never assigns to a field of an
  object it has built, the fields can travel with the number. The environment is a map from
  names to values; the values written back come from the environment itself, so the
  assignment \<^verbatim>\<open>os.environ[key] = value\<close> is taken to succeed.
\<close>

type_synonym proxy_instance = "nat \<times> ProxyConfig"

record process =
  environ :: "string \<rightharpoonup> string"
  allocated :: nat
  global_proxy_config :: "proxy_instance option"

definition getenv :: "process \<Rightarrow> string \<Rightarrow> string option" where
  "getenv s key = environ s key"

definition load_proxy_config :: "url_parser \<Rightarrow> process \<Rightarrow> (exn + proxy_instance) \<times> process" where
  "load_proxy_config urlparse s =
     (case ProxyConfig_init urlparse
             (getenv s ''STRIX_PROXY_TOOLS'')
             (getenv s ''STRIX_PROXY_LLM'')
             (getenv s ''STRIX_PROXY_ALL'') of
        Inl e \<Rightarrow> (Inl e, s)
      | Inr c \<Rightarrow> (Inr (allocated s, c), s\<lparr>allocated := Suc (allocated s)\<rparr>))"

text \<open>The loop \<^verbatim>\<open>for key, value in llm_proxy_env.items(): os.environ[key] = value\<close>.\<close>

fun set_environ :: "dict \<Rightarrow> process \<Rightarrow> process" where
  "set_environ [] s = s"
| "set_environ ((key, v) # rest) s = set_environ rest (s\<lparr>environ := (environ s)(key \<mapsto> v)\<rparr>)"

definition configure_global_proxies ::
  "url_parser \<Rightarrow> process \<Rightarrow> (exn + proxy_instance) \<times> process" where
  "configure_global_proxies urlparse s =
     (case load_proxy_config urlparse s of
        (Inl e, s') \<Rightarrow> (Inl e, s')
      | (Inr config, s') \<Rightarrow>
          (let llm_proxy_env = get_litellm_proxy_env (snd config)
           in (Inr config, set_environ llm_proxy_env s')))"


subsection \<open>The invariant of the specification\<close>

text \<open>
  This predicate follows the words of the specification, not the code: a URL is valid when
  it parses with a scheme among http, https, socks5 and socks5h, a non-empty hostname and
  an explicit port that is not zero. The theorems compare it with what the constructor does.
\<close>

definition spec_valid_url :: "url_parser \<Rightarrow> string \<Rightarrow> bool" where
  "spec_valid_url urlparse u =
     (case urlparse u of
        Inl _ \<Rightarrow> False
      | Inr r \<Rightarrow>
          scheme r \<in> {''http'', ''https'', ''socks5'', ''socks5h''}
          \<and> (case hostname r of None \<Rightarrow> False | Some h \<Rightarrow> h \<noteq> [])
          \<and> (case port r of Inl _ \<Rightarrow> False | Inr None \<Rightarrow> False | Inr (Some n) \<Rightarrow> n \<noteq> 0))"

text \<open>A field passes when it is absent, empty, or a valid URL.\<close>

definition field_ok :: "url_parser \<Rightarrow> string option \<Rightarrow> bool" where
  "field_ok urlparse x = (case x of None \<Rightarrow> True | Some u \<Rightarrow> u = [] \<or> spec_valid_url urlparse u)"

text \<open>The message of the error \<^verbatim>\<open>_validate_proxy_url\<close> raises for a field and its URL.\<close>

definition invalid_url_message :: "string \<Rightarrow> string \<Rightarrow> string" where
  "invalid_url_message env_var_name proxy_url =
     ''Invalid proxy URL in '' @ env_var_name @ '': '' @ proxy_url"

text \<open>
  What it means for a URL to come back unchanged for a traffic class: the resolved proxy
  is the URL itself and every adapter output carries it verbatim.
\<close>

definition round_trips_tools :: "url_parser \<Rightarrow> ProxyConfig \<Rightarrow> string \<Rightarrow> bool" where
  "round_trips_tools urlparse c u =
     (get_tools_proxy c = Some u
      \<and> get_requests_proxies c ''tools'' = Some [(''http'', u), (''https'', u)]
      \<and> get_httpx_proxies urlparse c ''tools''
            \<in> {Inr (Some [(''_socks_proxy'', u)]), Inr (Some [(''http://'', u), (''https://'', u)])})"

definition round_trips_llm :: "url_parser \<Rightarrow> ProxyConfig \<Rightarrow> string \<Rightarrow> bool" where
  "round_trips_llm urlparse c u =
     (get_llm_proxy c = Some u
      \<and> get_requests_proxies c ''llm'' = Some [(''http'', u), (''https'', u)]
      \<and> get_httpx_proxies urlparse c ''llm''
            \<in> {Inr (Some [(''_socks_proxy'', u)]), Inr (Some [(''http://'', u), (''https://'', u)])}
      \<and> get_litellm_proxy_env c = [(''HTTP_PROXY'', u), (''HTTPS_PROXY'', u)])"

text \<open>
  Reading a field the way the specification speaks of it, with the empty string taken as
  absent; \<open>drop_empty\<close> does so for the three fields of an object. The theorems compare
  the module's behaviour on an object with its behaviour on the object so rewritten.
\<close>

definition absent_if_empty :: "string option \<Rightarrow> string option" where
  "absent_if_empty x = (case x of None \<Rightarrow> None | Some u \<Rightarrow> if u = [] then None else Some u)"

definition drop_empty :: "ProxyConfig \<Rightarrow> ProxyConfig" where
  "drop_empty c =
     \<lparr>tools_proxy = absent_if_empty (tools_proxy c),
      llm_proxy = absent_if_empty (llm_proxy c),
      all_proxy = absent_if_empty (all_proxy c)\<rparr>"

subsection \<open>A parser to run the examples\<close>

text \<open>
  The examples need a parser to run. This one follows \<^verbatim>\<open>urlsplit\<close> of CPython 3.12 (which
  \<^verbatim>\<open>urlparse\<close> calls first, and which alone decides the three attributes) and the
  properties \<^verbatim>\<open>hostname\<close> and \<^verbatim>\<open>port\<close> of its result, on strings of ASCII characters:
  leading control characters and spaces are stripped, tabs and line breaks removed, a scheme
  is a letter followed by scheme characters up to the first colon, the network location
  follows \<^verbatim>\<open>//\<close> and ends at the first of \<^verbatim>\<open>/ ? #\<close>. Two checks of the library are
  left out: the address check of a bracketed host (module \<^verbatim>\<open>ipaddress\<close>) and the
  normalisation check of a network location with characters outside ASCII. No example
  below has a bracket or such a character, and no general theorem mentions this parser.
\<close>

definition scheme_chars :: string where
  "scheme_chars =
     ''abcdefghijklmnopqrstuvwxyz'' @ ''ABCDEFGHIJKLMNOPQRSTUVWXYZ'' @ ''0123456789'' @ ''+-.''"

definition ascii_letters :: string where
  "ascii_letters = ''abcdefghijklmnopqrstuvwxyz'' @ ''ABCDEFGHIJKLMNOPQRSTUVWXYZ''"

definition lower_char :: "char \<Rightarrow> char" where
  "lower_char c =
     (case map_of (zip ''ABCDEFGHIJKLMNOPQRSTUVWXYZ'' ''abcdefghijklmnopqrstuvwxyz'') c of
        None \<Rightarrow> c
      | Some d \<Rightarrow> d)"

definition lower :: "string \<Rightarrow> string" where
  "lower s = map lower_char s"

definition C0_CONTROL_OR_SPACE :: "char \<Rightarrow> bool" where
  "C0_CONTROL_OR_SPACE c = (of_char c \<le> (32::nat))"

definition UNSAFE_URL_BYTES_TO_REMOVE :: string where
  "UNSAFE_URL_BYTES_TO_REMOVE = [CHR 0x09, CHR 0x0D, CHR 0x0A]"

text \<open>\<^verbatim>\<open>s.partition(c)\<close>: the text up to the first \<^verbatim>\<open>c\<close>, whether there is one, the text after.\<close>

definition partition_str :: "char \<Rightarrow> string \<Rightarrow> string \<times> bool \<times> string" where
  "partition_str c s =
     (if c \<in> set s then (takeWhile (\<lambda>x. x \<noteq> c) s, True, tl (dropWhile (\<lambda>x. x \<noteq> c) s))
      else (s, False, []))"

text \<open>The third component of \<^verbatim>\<open>s.rpartition(c)\<close>: the text after the last \<^verbatim>\<open>c\<close>.\<close>

definition rpartition_after :: "char \<Rightarrow> string \<Rightarrow> string" where
  "rpartition_after c s = rev (takeWhile (\<lambda>x. x \<noteq> c) (rev s))"

text \<open>The scheme and the rest of the URL, as the first half of \<^verbatim>\<open>urlsplit\<close> finds them.\<close>

definition split_scheme :: "string \<Rightarrow> string \<times> string" where
  "split_scheme url =
     (let pre = takeWhile (\<lambda>x. x \<noteq> CHR '':'') url
      in if CHR '':'' \<in> set url \<and> pre \<noteq> [] \<and> hd pre \<in> set ascii_letters
            \<and> (\<forall>c \<in> set pre. c \<in> set scheme_chars)
         then (lower pre, tl (dropWhile (\<lambda>x. x \<noteq> CHR '':'') url))
         else ([], url))"

definition splitnetloc :: "string \<Rightarrow> string" where
  "splitnetloc url = takeWhile (\<lambda>x. x \<notin> set ''/?#'') (drop 2 url)"

definition hostinfo :: "string \<Rightarrow> string \<times> string option" where
  "hostinfo netloc =
     (let hi = rpartition_after CHR ''@'' netloc;
          (_, have_open_br, bracketed) = partition_str CHR ''['' hi;
          (host, p) =
            (if have_open_br then
               (let (h, _, after) = partition_str CHR '']'' bracketed;
                    (_, _, q) = partition_str CHR '':'' after
                in (h, q))
             else
               (let (h, _, q) = partition_str CHR '':'' hi in (h, q)))
      in (host, if p = [] then None else Some p))"

definition hostname_of :: "string \<Rightarrow> string option" where
  "hostname_of netloc =
     (let host = fst (hostinfo netloc)
      in if host = [] then None
         else
           (let (h, percent, zone) = partition_str CHR ''%'' host
            in Some (lower h @ (if percent then ''%'' else []) @ zone)))"

definition digit_value :: "char \<Rightarrow> int" where
  "digit_value c = (case map_of (zip ''0123456789'' [0, 1, 2, 3, 4, 5, 6, 7, 8, 9]) c of
                      None \<Rightarrow> 0 | Some d \<Rightarrow> d)"

definition int_of_digits :: "string \<Rightarrow> int" where
  "int_of_digits s = foldl (\<lambda>n c. 10 * n + digit_value c) 0 s"

definition port_of :: "string \<Rightarrow> exn + int option" where
  "port_of netloc =
     (case snd (hostinfo netloc) of
        None \<Rightarrow> Inr None
      | Some p \<Rightarrow>
          if \<forall>c \<in> set p. c \<in> set ''0123456789'' then
            (let n = int_of_digits p
             in if \<not> (0 \<le> n \<and> n \<le> 65535) then
                  Inl (ValueError ''Port out of range 0-65535'' None)
                else Inr (Some n))
          else
            Inl (ValueError
              (''Port could not be cast to integer value as '' @ [CHR 0x27] @ p @ [CHR 0x27]) None))"

definition urlparse :: url_parser where
  "urlparse url0 =
     (let url1 = dropWhile C0_CONTROL_OR_SPACE url0;
          url2 = filter (\<lambda>c. c \<notin> set UNSAFE_URL_BYTES_TO_REMOVE) url1;
          (sch, url) = split_scheme url2;
          netloc = (if take 2 url = ''//'' then splitnetloc url else [])
      in if (CHR ''['' \<in> set netloc \<and> CHR '']'' \<notin> set netloc)
            \<or> (CHR '']'' \<in> set netloc \<and> CHR ''['' \<notin> set netloc)
         then Inl (ValueError ''Invalid IPv6 URL'' None)
         else Inr \<lparr>scheme = sch, hostname = hostname_of netloc, port = port_of netloc\<rparr>)"


section \<open>Validation\<close>

lemma validate_try_ok: "(validate_try p u n = Inr ()) = spec_valid_url p u"
  by (auto simp: validate_try_def spec_valid_url_def supported_schemes_def truthy_def
      truthy_int_def ValueError_def split: sum.splits option.splits)

lemma validate_proxy_url_ok: "(validate_proxy_url p u n = Inr ()) = spec_valid_url p u"
  using validate_try_ok [of p u n]
  by (cases "validate_try p u n") (auto simp: validate_proxy_url_def)

lemma validate_proxy_url_cases:
  "validate_proxy_url p u n = Inr () \<and> spec_valid_url p u
   \<or> (\<exists>e. validate_proxy_url p u n = Inl (ValueError (invalid_url_message n u) (Some e))
          \<and> \<not> spec_valid_url p u)"
  using validate_try_ok [of p u n]
  by (cases "validate_try p u n") (auto simp: validate_proxy_url_def invalid_url_message_def)

lemma post_init_loop_ok:
  "(post_init_loop p fs = Inr ()) = (\<forall>(n, x) \<in> set fs. field_ok p x)"
proof (induction fs)
  case Nil
  then show ?case by simp
next
  case (Cons f fs)
  obtain n x where f: "f = (n, x)" by (cases f)
  show ?case
  proof (cases x)
    case None
    with Cons f show ?thesis by (simp add: field_ok_def)
  next
    case (Some u)
    show ?thesis
      using Cons f Some validate_proxy_url_cases [of p u n]
      by (auto simp: field_ok_def)
  qed
qed

lemma ProxyConfig_init_ok:
  "(ProxyConfig_init p t l a = Inr c) =
     (field_ok p t \<and> field_ok p l \<and> field_ok p a
      \<and> c = \<lparr>tools_proxy = t, llm_proxy = l, all_proxy = a\<rparr>)"
proof -
  have "(post_init p \<lparr>tools_proxy = t, llm_proxy = l, all_proxy = a\<rparr> = Inr ())
          = (field_ok p t \<and> field_ok p l \<and> field_ok p a)"
    unfolding post_init_def post_init_loop_ok by simp
  then show ?thesis
    by (cases "post_init p \<lparr>tools_proxy = t, llm_proxy = l, all_proxy = a\<rparr>")
       (auto simp: ProxyConfig_init_def Let_def)
qed

section \<open>Construction\<close>

lemma valid_parses:
  "spec_valid_url p u \<Longrightarrow> \<exists>r. p u = Inr r \<and> scheme r \<in> set supported_schemes"
  by (auto simp: spec_valid_url_def supported_schemes_def split: sum.splits)

lemma requests_of_tools:
  "get_tools_proxy c = Some u \<Longrightarrow> u \<noteq> [] \<Longrightarrow>
     get_requests_proxies c ''tools'' = Some [(''http'', u), (''https'', u)]"
  by (simp add: get_requests_proxies_def)

lemma requests_of_llm:
  "get_llm_proxy c = Some u \<Longrightarrow> u \<noteq> [] \<Longrightarrow> ty \<noteq> ''tools'' \<Longrightarrow>
     get_requests_proxies c ty = Some [(''http'', u), (''https'', u)]"
  by (simp add: get_requests_proxies_def)

lemma httpx_of_tools:
  "get_tools_proxy c = Some u \<Longrightarrow> u \<noteq> [] \<Longrightarrow> p u = Inr r \<Longrightarrow>
     get_httpx_proxies p c ''tools'' =
       Inr (Some (if scheme r \<in> {''socks5'', ''socks5h''} then [(''_socks_proxy'', u)]
                  else [(''http://'', u), (''https://'', u)]))"
  by (simp add: get_httpx_proxies_def)

lemma httpx_of_llm:
  "get_llm_proxy c = Some u \<Longrightarrow> u \<noteq> [] \<Longrightarrow> p u = Inr r \<Longrightarrow> ty \<noteq> ''tools'' \<Longrightarrow>
     get_httpx_proxies p c ty =
       Inr (Some (if scheme r \<in> {''socks5'', ''socks5h''} then [(''_socks_proxy'', u)]
                  else [(''http://'', u), (''https://'', u)]))"
  by (simp add: get_httpx_proxies_def)

lemma litellm_of_llm:
  "get_llm_proxy c = Some u \<Longrightarrow> u \<noteq> [] \<Longrightarrow>
     get_litellm_proxy_env c = [(''HTTP_PROXY'', u), (''HTTPS_PROXY'', u)]"
  by (simp add: get_litellm_proxy_env_def)

lemma round_trips_toolsI:
  "get_tools_proxy c = Some u \<Longrightarrow> u \<noteq> [] \<Longrightarrow> spec_valid_url p u \<Longrightarrow> round_trips_tools p c u"
proof -
  assume e: "get_tools_proxy c = Some u" and n: "u \<noteq> []" and v: "spec_valid_url p u"
  from v obtain r where r: "p u = Inr r" using valid_parses by blast
  show ?thesis
    unfolding round_trips_tools_def
    by (simp add: e requests_of_tools [OF e n] httpx_of_tools [of c u p r, OF e n r])
qed

lemma round_trips_llmI:
  "get_llm_proxy c = Some u \<Longrightarrow> u \<noteq> [] \<Longrightarrow> spec_valid_url p u \<Longrightarrow> round_trips_llm p c u"
proof -
  assume e: "get_llm_proxy c = Some u" and n: "u \<noteq> []" and v: "spec_valid_url p u"
  from v obtain r where r: "p u = Inr r" using valid_parses by blast
  show ?thesis
    unfolding round_trips_llm_def
    by (simp add: e requests_of_llm [OF e n] httpx_of_llm [of c u p r, OF e n r] litellm_of_llm [OF e n])
qed

text \<open>
  Claim C1, as amended. Construction succeeds if and only if every field that is present
  and not the empty string parses as a URL with a scheme among http, https, socks5 and
  socks5h, a non-empty hostname and an explicit port that is not zero; a field that is
  absent or empty is not validated. On success the object holds the three arguments
  unchanged, and a non-empty URL comes back verbatim from the resolution of its traffic
  class and from every adapter (the tools or LLM field always, the catch-all field when the
  specific one is absent or empty). When any field is a non-empty string that is not a
  valid URL, construction fails and no object is produced.
\<close>

theorem ProxyConfig_init_valid_iff:
  "((\<exists>c. ProxyConfig_init p t l a = Inr c) \<longleftrightarrow> field_ok p t \<and> field_ok p l \<and> field_ok p a)
   \<and> (\<forall>c. ProxyConfig_init p t l a = Inr c \<longrightarrow>
          c = \<lparr>tools_proxy = t, llm_proxy = l, all_proxy = a\<rparr>
          \<and> (\<forall>u. t = Some u \<and> u \<noteq> [] \<longrightarrow> round_trips_tools p c u)
          \<and> (\<forall>u. l = Some u \<and> u \<noteq> [] \<longrightarrow> round_trips_llm p c u)
          \<and> (\<forall>u. a = Some u \<and> u \<noteq> [] \<and> \<not> truthy t \<longrightarrow> round_trips_tools p c u)
          \<and> (\<forall>u. a = Some u \<and> u \<noteq> [] \<and> \<not> truthy l \<longrightarrow> round_trips_llm p c u))
   \<and> (\<forall>x \<in> {t, l, a}. \<forall>u. x = Some u \<and> u \<noteq> [] \<and> \<not> spec_valid_url p u \<longrightarrow>
          (\<exists>e. ProxyConfig_init p t l a = Inl e))"
proof (intro conjI)
  show "(\<exists>c. ProxyConfig_init p t l a = Inr c) \<longleftrightarrow> field_ok p t \<and> field_ok p l \<and> field_ok p a"
    by (simp add: ProxyConfig_init_ok)
next
  show "\<forall>c. ProxyConfig_init p t l a = Inr c \<longrightarrow>
          c = \<lparr>tools_proxy = t, llm_proxy = l, all_proxy = a\<rparr>
          \<and> (\<forall>u. t = Some u \<and> u \<noteq> [] \<longrightarrow> round_trips_tools p c u)
          \<and> (\<forall>u. l = Some u \<and> u \<noteq> [] \<longrightarrow> round_trips_llm p c u)
          \<and> (\<forall>u. a = Some u \<and> u \<noteq> [] \<and> \<not> truthy t \<longrightarrow> round_trips_tools p c u)
          \<and> (\<forall>u. a = Some u \<and> u \<noteq> [] \<and> \<not> truthy l \<longrightarrow> round_trips_llm p c u)"
  proof (intro allI impI)
    fix c
    assume "ProxyConfig_init p t l a = Inr c"
    then have ok: "field_ok p t" "field_ok p l" "field_ok p a"
      and c: "c = \<lparr>tools_proxy = t, llm_proxy = l, all_proxy = a\<rparr>"
      by (simp_all add: ProxyConfig_init_ok)
    have 1: "\<forall>u. t = Some u \<and> u \<noteq> [] \<longrightarrow> round_trips_tools p c u"
      using ok(1) c
      by (auto intro!: round_trips_toolsI simp: field_ok_def get_tools_proxy_def py_or_def truthy_def)
    have 2: "\<forall>u. l = Some u \<and> u \<noteq> [] \<longrightarrow> round_trips_llm p c u"
      using ok(2) c
      by (auto intro!: round_trips_llmI simp: field_ok_def get_llm_proxy_def py_or_def truthy_def)
    have 3: "\<forall>u. a = Some u \<and> u \<noteq> [] \<and> \<not> truthy t \<longrightarrow> round_trips_tools p c u"
      using ok(3) c
      by (auto intro!: round_trips_toolsI simp: field_ok_def get_tools_proxy_def py_or_def)
    have 4: "\<forall>u. a = Some u \<and> u \<noteq> [] \<and> \<not> truthy l \<longrightarrow> round_trips_llm p c u"
      using ok(3) c
      by (auto intro!: round_trips_llmI simp: field_ok_def get_llm_proxy_def py_or_def)
    from c 1 2 3 4 show "c = \<lparr>tools_proxy = t, llm_proxy = l, all_proxy = a\<rparr>
          \<and> (\<forall>u. t = Some u \<and> u \<noteq> [] \<longrightarrow> round_trips_tools p c u)
          \<and> (\<forall>u. l = Some u \<and> u \<noteq> [] \<longrightarrow> round_trips_llm p c u)
          \<and> (\<forall>u. a = Some u \<and> u \<noteq> [] \<and> \<not> truthy t \<longrightarrow> round_trips_tools p c u)
          \<and> (\<forall>u. a = Some u \<and> u \<noteq> [] \<and> \<not> truthy l \<longrightarrow> round_trips_llm p c u)"
      by blast
  qed
next
  show "\<forall>x \<in> {t, l, a}. \<forall>u. x = Some u \<and> u \<noteq> [] \<and> \<not> spec_valid_url p u \<longrightarrow>
          (\<exists>e. ProxyConfig_init p t l a = Inl e)"
  proof (intro ballI allI impI)
    fix x u
    assume x: "x \<in> {t, l, a}" and u: "x = Some u \<and> u \<noteq> [] \<and> \<not> spec_valid_url p u"
    then have "\<not> field_ok p x" by (simp add: field_ok_def)
    with x have "\<not> (field_ok p t \<and> field_ok p l \<and> field_ok p a)" by auto
    then have "\<forall>c. ProxyConfig_init p t l a \<noteq> Inr c"
      using ProxyConfig_init_ok [of p t l a] by blast
    then show "\<exists>e. ProxyConfig_init p t l a = Inl e"
      by (cases "ProxyConfig_init p t l a") auto
  qed
qed

text \<open>
  An instance with the parser of the examples: an HTTP proxy for tools and a SOCKS proxy for
  the LLM are accepted and come back unchanged; a SOCKS URL without a port is refused.
\<close>

theorem ProxyConfig_init_valid_iff_witness:
  "ProxyConfig_init urlparse (Some ''http://a:1'') (Some ''socks5://p:1080'') None
     = Inr \<lparr>tools_proxy = Some ''http://a:1'', llm_proxy = Some ''socks5://p:1080'', all_proxy = None\<rparr>
   \<and> round_trips_tools urlparse
        \<lparr>tools_proxy = Some ''http://a:1'', llm_proxy = Some ''socks5://p:1080'', all_proxy = None\<rparr>
        ''http://a:1''
   \<and> round_trips_llm urlparse
        \<lparr>tools_proxy = Some ''http://a:1'', llm_proxy = Some ''socks5://p:1080'', all_proxy = None\<rparr>
        ''socks5://p:1080''
   \<and> (\<exists>e. ProxyConfig_init urlparse (Some ''http://a:1'') (Some ''socks5://p'') None = Inl e)"
proof -
  have t: "field_ok urlparse (Some ''http://a:1'')" by code_simp
  have l: "field_ok urlparse (Some ''socks5://p:1080'')" by code_simp
  have a: "field_ok urlparse None" by code_simp
  have bad: "\<not> spec_valid_url urlparse ''socks5://p''" by code_simp
  note w = ProxyConfig_init_valid_iff [of urlparse "Some ''http://a:1''" "Some ''socks5://p:1080''" None]
  from w t l a obtain c
    where c: "ProxyConfig_init urlparse (Some ''http://a:1'') (Some ''socks5://p:1080'') None = Inr c"
    by blast
  with w have "c = \<lparr>tools_proxy = Some ''http://a:1'', llm_proxy = Some ''socks5://p:1080'', all_proxy = None\<rparr>"
    and "round_trips_tools urlparse c ''http://a:1''"
    and "round_trips_llm urlparse c ''socks5://p:1080''"
    by blast+
  moreover have "\<exists>e. ProxyConfig_init urlparse (Some ''http://a:1'') (Some ''socks5://p'') None = Inl e"
    using ProxyConfig_init_valid_iff [of urlparse "Some ''http://a:1''" "Some ''socks5://p''" None] bad
    by simp
  ultimately show ?thesis using c by simp
qed

text \<open>
  Claim C1 as it is written fails on a field that is present but empty: the constructor
  accepts \<^verbatim>\<open>ProxyConfig(tools_proxy="")\<close>, although the empty string has no scheme, no
  hostname and no port.
\<close>

theorem ProxyConfig_init_empty_field_counterexample:
  "ProxyConfig_init urlparse (Some '''') None None
     = Inr \<lparr>tools_proxy = Some '''', llm_proxy = None, all_proxy = None\<rparr>
   \<and> \<not> spec_valid_url urlparse ''''"
  by code_simp

section \<open>Errors\<close>

lemma validate_try_error:
  "validate_try p u n = Inl inner \<Longrightarrow>
     (case p u of
        Inl pe \<Rightarrow> inner = pe
      | Inr r \<Rightarrow>
          if scheme r \<notin> set supported_schemes then
            inner = ValueError
              (''Invalid proxy scheme in '' @ n @ '': '' @ scheme r
                 @ ''. Supported schemes: http, https, socks5, socks5h'') None
          else if \<not> truthy (hostname r) then
            inner = ValueError (''Missing hostname in '' @ n @ '': '' @ u) None
          else
            (case port r of
               Inl pe \<Rightarrow> inner = pe
             | Inr q \<Rightarrow> inner = ValueError (''Missing port in '' @ n @ '': '' @ u) None))"
  by (auto simp: validate_try_def split: sum.splits if_splits)

lemma validate_proxy_url_error:
  "validate_proxy_url p u n = Inl e \<Longrightarrow>
     \<exists>inner. validate_try p u n = Inl inner
       \<and> e = ValueError (invalid_url_message n u) (Some inner)"
  by (auto simp: validate_proxy_url_def invalid_url_message_def split: sum.splits)

lemma post_init_loop_step:
  "post_init_loop p ((n, x) # rest) = Inl e \<Longrightarrow>
     (\<exists>u. x = Some u \<and> u \<noteq> [] \<and> validate_proxy_url p u n = Inl e)
     \<or> (field_ok p x \<and> post_init_loop p rest = Inl e)"
proof (cases x)
  case None
  assume "post_init_loop p ((n, x) # rest) = Inl e"
  with None show ?thesis by (simp add: field_ok_def)
next
  case (Some u)
  assume loop: "post_init_loop p ((n, x) # rest) = Inl e"
  show ?thesis
  proof (cases "u = []")
    case True
    with Some loop show ?thesis by (simp add: field_ok_def)
  next
    case False
    show ?thesis
    proof (cases "validate_proxy_url p u n")
      case (Inl e')
      with Some False loop show ?thesis by simp
    next
      case (Inr v)
      then have "spec_valid_url p u" using validate_proxy_url_ok [of p u n] by simp
      with Some False loop Inr show ?thesis by (simp add: field_ok_def)
    qed
  qed
qed

lemma ProxyConfig_init_error:
  "ProxyConfig_init p t l a = Inl e \<Longrightarrow>
     (\<exists>u. t = Some u \<and> u \<noteq> [] \<and> validate_proxy_url p u ''STRIX_PROXY_TOOLS'' = Inl e)
     \<or> (field_ok p t
         \<and> (\<exists>u. l = Some u \<and> u \<noteq> [] \<and> validate_proxy_url p u ''STRIX_PROXY_LLM'' = Inl e))
     \<or> (field_ok p t \<and> field_ok p l
         \<and> (\<exists>u. a = Some u \<and> u \<noteq> [] \<and> validate_proxy_url p u ''STRIX_PROXY_ALL'' = Inl e))"
proof -
  assume "ProxyConfig_init p t l a = Inl e"
  then have "post_init p \<lparr>tools_proxy = t, llm_proxy = l, all_proxy = a\<rparr> = Inl e"
    by (auto simp: ProxyConfig_init_def Let_def split: sum.splits)
  then have 1: "post_init_loop p
       [(''STRIX_PROXY_TOOLS'', t), (''STRIX_PROXY_LLM'', l), (''STRIX_PROXY_ALL'', a)] = Inl e"
    by (simp add: post_init_def del: post_init_loop.simps)
  show ?thesis
  proof (cases "\<exists>u. t = Some u \<and> u \<noteq> [] \<and> validate_proxy_url p u ''STRIX_PROXY_TOOLS'' = Inl e")
    case True
    then show ?thesis by blast
  next
    case nt: False
    with post_init_loop_step [OF 1]
    have t: "field_ok p t"
      and 2: "post_init_loop p [(''STRIX_PROXY_LLM'', l), (''STRIX_PROXY_ALL'', a)] = Inl e"
      by blast+
    show ?thesis
    proof (cases "\<exists>u. l = Some u \<and> u \<noteq> [] \<and> validate_proxy_url p u ''STRIX_PROXY_LLM'' = Inl e")
      case True
      with t show ?thesis by blast
    next
      case nl: False
      with post_init_loop_step [OF 2]
      have l: "field_ok p l" and 3: "post_init_loop p [(''STRIX_PROXY_ALL'', a)] = Inl e"
        by blast+
      from post_init_loop_step [OF 3]
      have "\<exists>u. a = Some u \<and> u \<noteq> [] \<and> validate_proxy_url p u ''STRIX_PROXY_ALL'' = Inl e"
        by simp
      with t l show ?thesis by blast
    qed
  qed
qed

text \<open>
  Claim C2, as amended. When validation of a field fails, the error raised is a
  \<^verbatim>\<open>ValueError\<close> whose message names the logical field and the offending URL, and it
  always carries a cause: the parser's own error when parsing the URL or reading its port
  raised, and otherwise the module's inner error that names the unsupported scheme, the
  missing hostname or the missing port (an error without a cause of its own). The error of a
  failed construction is the one of the first field, in the order tools, LLM, catch-all,
  that is a non-empty string and not a valid URL.
\<close>

theorem validation_error_carries_cause:
  "(validate_proxy_url p u n = Inl e \<longrightarrow>
      exn_class e = ''ValueError''
      \<and> message e = ''Invalid proxy URL in '' @ n @ '': '' @ u
      \<and> (\<exists>inner. cause e = Some inner
            \<and> (case p u of
                  Inl pe \<Rightarrow> inner = pe
                | Inr r \<Rightarrow>
                    if scheme r \<notin> set supported_schemes then
                      inner = ValueError
                        (''Invalid proxy scheme in '' @ n @ '': '' @ scheme r
                           @ ''. Supported schemes: http, https, socks5, socks5h'') None
                    else if \<not> truthy (hostname r) then
                      inner = ValueError (''Missing hostname in '' @ n @ '': '' @ u) None
                    else
                      (case port r of
                         Inl pe \<Rightarrow> inner = pe
                       | Inr q \<Rightarrow>
                           inner = ValueError (''Missing port in '' @ n @ '': '' @ u) None))))
   \<and> (ProxyConfig_init p t l a = Inl e \<longrightarrow>
        (\<exists>u. t = Some u \<and> u \<noteq> [] \<and> validate_proxy_url p u ''STRIX_PROXY_TOOLS'' = Inl e)
        \<or> (field_ok p t
            \<and> (\<exists>u. l = Some u \<and> u \<noteq> [] \<and> validate_proxy_url p u ''STRIX_PROXY_LLM'' = Inl e))
        \<or> (field_ok p t \<and> field_ok p l
            \<and> (\<exists>u. a = Some u \<and> u \<noteq> []
                  \<and> validate_proxy_url p u ''STRIX_PROXY_ALL'' = Inl e)))"
proof (intro conjI impI)
  assume v: "validate_proxy_url p u n = Inl e"
  from validate_proxy_url_error [OF v] obtain inner
    where i: "validate_try p u n = Inl inner"
      and e: "e = ValueError (invalid_url_message n u) (Some inner)"
    by blast
  from e show "exn_class e = ''ValueError''" by (simp add: ValueError_def)
  from e show "message e = ''Invalid proxy URL in '' @ n @ '': '' @ u"
    by (simp add: ValueError_def invalid_url_message_def)
  from e have "cause e = Some inner" by (simp add: ValueError_def)
  with validate_try_error [OF i]
  show "\<exists>inner. cause e = Some inner
            \<and> (case p u of
                  Inl pe \<Rightarrow> inner = pe
                | Inr r \<Rightarrow>
                    if scheme r \<notin> set supported_schemes then
                      inner = ValueError
                        (''Invalid proxy scheme in '' @ n @ '': '' @ scheme r
                           @ ''. Supported schemes: http, https, socks5, socks5h'') None
                    else if \<not> truthy (hostname r) then
                      inner = ValueError (''Missing hostname in '' @ n @ '': '' @ u) None
                    else
                      (case port r of
                         Inl pe \<Rightarrow> inner = pe
                       | Inr q \<Rightarrow>
                           inner = ValueError (''Missing port in '' @ n @ '': '' @ u) None))"
    by blast
next
  assume "ProxyConfig_init p t l a = Inl e"
  then show "(\<exists>u. t = Some u \<and> u \<noteq> [] \<and> validate_proxy_url p u ''STRIX_PROXY_TOOLS'' = Inl e)
        \<or> (field_ok p t
            \<and> (\<exists>u. l = Some u \<and> u \<noteq> [] \<and> validate_proxy_url p u ''STRIX_PROXY_LLM'' = Inl e))
        \<or> (field_ok p t \<and> field_ok p l
            \<and> (\<exists>u. a = Some u \<and> u \<noteq> []
                  \<and> validate_proxy_url p u ''STRIX_PROXY_ALL'' = Inl e))"
    by (rule ProxyConfig_init_error)
qed

text \<open>
  Two instances with the parser of the examples: a URL the parser itself refuses (an open
  bracket that is never closed), and a failed construction whose error names the LLM field,
  the first invalid one.
\<close>

theorem validation_error_carries_cause_witness:
  "validate_proxy_url urlparse ''http://[::1'' ''STRIX_PROXY_ALL''
     = Inl (ValueError ''Invalid proxy URL in STRIX_PROXY_ALL: http://[::1''
              (Some (ValueError ''Invalid IPv6 URL'' None)))
   \<and> urlparse ''http://[::1'' = Inl (ValueError ''Invalid IPv6 URL'' None)
   \<and> ProxyConfig_init urlparse (Some ''http://a:1'') (Some ''ftp://p:21'') (Some ''x'')
     = Inl (ValueError ''Invalid proxy URL in STRIX_PROXY_LLM: ftp://p:21''
              (Some (ValueError
                 (''Invalid proxy scheme in STRIX_PROXY_LLM: ftp. ''
                    @ ''Supported schemes: http, https, socks5, socks5h'') None)))
   \<and> validate_proxy_url urlparse ''ftp://p:21'' ''STRIX_PROXY_LLM''
     = Inl (ValueError ''Invalid proxy URL in STRIX_PROXY_LLM: ftp://p:21''
              (Some (ValueError
                 (''Invalid proxy scheme in STRIX_PROXY_LLM: ftp. ''
                    @ ''Supported schemes: http, https, socks5, socks5h'') None)))"
proof -
  let ?e1 = "ValueError ''Invalid proxy URL in STRIX_PROXY_ALL: http://[::1''
              (Some (ValueError ''Invalid IPv6 URL'' None))"
  let ?e2 = "ValueError ''Invalid proxy URL in STRIX_PROXY_LLM: ftp://p:21''
              (Some (ValueError
                 (''Invalid proxy scheme in STRIX_PROXY_LLM: ftp. ''
                    @ ''Supported schemes: http, https, socks5, socks5h'') None))"
  have v: "validate_proxy_url urlparse ''http://[::1'' ''STRIX_PROXY_ALL'' = Inl ?e1"
    by code_simp
  have c: "ProxyConfig_init urlparse (Some ''http://a:1'') (Some ''ftp://p:21'') (Some ''x'')
             = Inl ?e2"
    by code_simp
  have nt: "validate_proxy_url urlparse ''http://a:1'' ''STRIX_PROXY_TOOLS'' \<noteq> Inl ?e2"
    by code_simp
  have na: "validate_proxy_url urlparse ''x'' ''STRIX_PROXY_ALL'' \<noteq> Inl ?e2"
    by code_simp
  have u: "urlparse ''http://[::1'' = Inl (ValueError ''Invalid IPv6 URL'' None)"
    by code_simp
  from validation_error_carries_cause
    [of urlparse "''http://[::1''" "''STRIX_PROXY_ALL''" ?e1] v
  have m: "exn_class ?e1 = ''ValueError''"
    by blast
  from validation_error_carries_cause
    [of urlparse _ _ ?e2 "Some ''http://a:1''" "Some ''ftp://p:21''" "Some ''x''"] c nt na
  have "validate_proxy_url urlparse ''ftp://p:21'' ''STRIX_PROXY_LLM'' = Inl ?e2"
    by auto
  with v u c m show ?thesis by simp
qed

text \<open>
  Claim C2 as it is written fails on a URL that merely lacks its port: the URL parses, and
  the error raised still has a cause, the module's own inner error.
\<close>

theorem missing_port_has_cause_counterexample:
  "urlparse ''http://p'' = Inr \<lparr>scheme = ''http'', hostname = Some ''p'', port = Inr None\<rparr>
   \<and> validate_proxy_url urlparse ''http://p'' ''STRIX_PROXY_TOOLS''
       = Inl (ValueError ''Invalid proxy URL in STRIX_PROXY_TOOLS: http://p''
                (Some (ValueError ''Missing port in STRIX_PROXY_TOOLS: http://p'' None)))"
  by code_simp

section \<open>Resolution\<close>

text \<open>
  Claim C3, as amended. The proxy for tools traffic is \<^verbatim>\<open>tools_proxy\<close> when that is present
  and not the empty string, and \<^verbatim>\<open>all_proxy\<close> as it stands otherwise (absent, the empty
  string or a URL); the proxy for LLM traffic is \<^verbatim>\<open>llm_proxy\<close> when that is present and
  not the empty string, and \<^verbatim>\<open>all_proxy\<close> as it stands otherwise.
\<close>

theorem get_proxy_precedence:
  "get_tools_proxy c =
     (case tools_proxy c of
        None \<Rightarrow> all_proxy c
      | Some u \<Rightarrow> if u = [] then all_proxy c else Some u)
   \<and> get_llm_proxy c =
     (case llm_proxy c of
        None \<Rightarrow> all_proxy c
      | Some u \<Rightarrow> if u = [] then all_proxy c else Some u)"
  by (simp add: get_tools_proxy_def get_llm_proxy_def py_or_def truthy_def split: option.splits)

text \<open>
  Claim C3 as it is written fails on the empty string. A \<^verbatim>\<open>tools_proxy\<close> that is present
  but empty is not returned: the catch-all is. And when nothing but an empty catch-all is
  set, the result is that empty string, not absent. Both objects can be built by the
  constructor.
\<close>

theorem get_proxy_empty_string_counterexample:
  "ProxyConfig_init urlparse (Some '''') None (Some ''http://b:2'')
     = Inr \<lparr>tools_proxy = Some '''', llm_proxy = None, all_proxy = Some ''http://b:2''\<rparr>
   \<and> get_tools_proxy \<lparr>tools_proxy = Some '''', llm_proxy = None, all_proxy = Some ''http://b:2''\<rparr>
       = Some ''http://b:2''
   \<and> ProxyConfig_init urlparse None None (Some '''')
     = Inr \<lparr>tools_proxy = None, llm_proxy = None, all_proxy = Some ''''\<rparr>
   \<and> get_tools_proxy \<lparr>tools_proxy = None, llm_proxy = None, all_proxy = Some ''''\<rparr> = Some ''''
   \<and> get_llm_proxy \<lparr>tools_proxy = None, llm_proxy = None, all_proxy = Some ''''\<rparr> = Some ''''"
  by code_simp

section \<open>Adapters\<close>

lemma effective_tools_valid:
  "ProxyConfig_init p t l a = Inr c \<Longrightarrow> get_tools_proxy c = Some u \<Longrightarrow> u \<noteq> [] \<Longrightarrow>
     spec_valid_url p u"
  by (auto simp: ProxyConfig_init_ok get_tools_proxy_def py_or_def field_ok_def
      split: if_splits)

lemma effective_llm_valid:
  "ProxyConfig_init p t l a = Inr c \<Longrightarrow> get_llm_proxy c = Some u \<Longrightarrow> u \<noteq> [] \<Longrightarrow>
     spec_valid_url p u"
  by (auto simp: ProxyConfig_init_ok get_llm_proxy_def py_or_def field_ok_def
      split: if_splits)

lemma httpx_of_absent:
  "(if ty = ''tools'' then get_tools_proxy c else get_llm_proxy c) = None \<Longrightarrow>
     get_httpx_proxies p c ty = Inr None"
  by (simp add: get_httpx_proxies_def)

lemma httpx_of_empty:
  "(if ty = ''tools'' then get_tools_proxy c else get_llm_proxy c) = Some [] \<Longrightarrow>
     get_httpx_proxies p c ty = Inr None"
  by (simp add: get_httpx_proxies_def)

lemma httpx_of_url:
  "(if ty = ''tools'' then get_tools_proxy c else get_llm_proxy c) = Some u \<Longrightarrow> u \<noteq> [] \<Longrightarrow>
   p u = Inr r \<Longrightarrow>
     get_httpx_proxies p c ty =
       Inr (Some (if scheme r \<in> {''socks5'', ''socks5h''} then [(''_socks_proxy'', u)]
                  else [(''http://'', u), (''https://'', u)]))"
  by (simp add: get_httpx_proxies_def)

lemma effective_valid:
  assumes "ProxyConfig_init p t l a = Inr c"
    and "(if ty = ''tools'' then get_tools_proxy c else get_llm_proxy c) = Some u"
    and "u \<noteq> []"
  shows "spec_valid_url p u"
proof (cases "ty = ''tools''")
  case True
  with assms show ?thesis using effective_tools_valid [of p t l a c u] by simp
next
  case False
  with assms show ?thesis using effective_llm_valid [of p t l a c u] by simp
qed

text \<open>
  Claim C6, as amended. For an object the constructor has built and either traffic class,
  \<^verbatim>\<open>get_httpx_proxies\<close> returns absent when the effective proxy is absent or the empty
  string (the test \<^verbatim>\<open>not proxy_url\<close> of the source); otherwise the effective URL parses,
  and the result is the single sentinel key \<^verbatim>\<open>_socks_proxy\<close> holding the raw URL when the
  scheme is socks5 or socks5h, and the keys \<^verbatim>\<open>http://\<close> and \<^verbatim>\<open>https://\<close> both holding the
  URL when it is not.
\<close>

theorem get_httpx_proxies_shape:
  "ProxyConfig_init p t l a = Inr c \<Longrightarrow> ty \<in> {''tools'', ''llm''} \<Longrightarrow>
     (case (if ty = ''tools'' then get_tools_proxy c else get_llm_proxy c) of
        None \<Rightarrow> get_httpx_proxies p c ty = Inr None
      | Some u \<Rightarrow>
          if u = [] then get_httpx_proxies p c ty = Inr None
          else (\<exists>r. p u = Inr r
                  \<and> get_httpx_proxies p c ty =
                      Inr (Some (if scheme r \<in> {''socks5'', ''socks5h''}
                                 then [(''_socks_proxy'', u)]
                                 else [(''http://'', u), (''https://'', u)]))))"
proof -
  assume init: "ProxyConfig_init p t l a = Inr c"
  let ?eff = "if ty = ''tools'' then get_tools_proxy c else get_llm_proxy c"
  show ?thesis
  proof (cases ?eff)
    case None
    then show ?thesis using httpx_of_absent [of ty c p] by simp
  next
    case (Some u)
    show ?thesis
    proof (cases "u = []")
      case True
      with Some show ?thesis using httpx_of_empty [of ty c p] by simp
    next
      case False
      from effective_valid [OF init Some False] obtain r where r: "p u = Inr r"
        using valid_parses by blast
      from httpx_of_url [of ty c u p r, OF Some False r] Some False r
      show ?thesis by simp
    qed
  qed
qed

text \<open>
  Instances with the parser of the examples: a SOCKS proxy for tools gives the sentinel key,
  an HTTP catch-all gives the two prefix keys for LLM traffic, and no proxy gives absent.
\<close>

theorem get_httpx_proxies_shape_witness:
  "get_httpx_proxies urlparse
       \<lparr>tools_proxy = Some ''socks5://p:1080'', llm_proxy = None, all_proxy = Some ''http://p:8080''\<rparr>
       ''tools''
     = Inr (Some [(''_socks_proxy'', ''socks5://p:1080'')])
   \<and> get_httpx_proxies urlparse
       \<lparr>tools_proxy = Some ''socks5://p:1080'', llm_proxy = None, all_proxy = Some ''http://p:8080''\<rparr>
       ''llm''
     = Inr (Some [(''http://'', ''http://p:8080''), (''https://'', ''http://p:8080'')])
   \<and> get_httpx_proxies urlparse \<lparr>tools_proxy = None, llm_proxy = None, all_proxy = None\<rparr> ''tools''
     = Inr None"
proof -
  let ?c = "\<lparr>tools_proxy = Some ''socks5://p:1080'', llm_proxy = None,
             all_proxy = Some ''http://p:8080''\<rparr>"
  let ?n = "\<lparr>tools_proxy = None, llm_proxy = None, all_proxy = None\<rparr>"
  have c: "ProxyConfig_init urlparse (Some ''socks5://p:1080'') None (Some ''http://p:8080'') = Inr ?c"
    by code_simp
  have n: "ProxyConfig_init urlparse None None None = Inr ?n"
    by code_simp
  have et: "get_tools_proxy ?c = Some ''socks5://p:1080''" by code_simp
  have el: "get_llm_proxy ?c = Some ''http://p:8080''" by code_simp
  have en: "get_tools_proxy ?n = None" by code_simp
  have pt: "urlparse ''socks5://p:1080''
              = Inr \<lparr>scheme = ''socks5'', hostname = Some ''p'', port = Inr (Some 1080)\<rparr>"
    by code_simp
  have pl: "urlparse ''http://p:8080''
              = Inr \<lparr>scheme = ''http'', hostname = Some ''p'', port = Inr (Some 8080)\<rparr>"
    by code_simp
  from get_httpx_proxies_shape [OF c, of "''tools''"] et pt
  have 1: "get_httpx_proxies urlparse ?c ''tools'' = Inr (Some [(''_socks_proxy'', ''socks5://p:1080'')])"
    by simp
  from get_httpx_proxies_shape [OF c, of "''llm''"] el pl
  have 2: "get_httpx_proxies urlparse ?c ''llm''
             = Inr (Some [(''http://'', ''http://p:8080''), (''https://'', ''http://p:8080'')])"
    by simp
  from get_httpx_proxies_shape [OF n, of "''tools''"] en
  have 3: "get_httpx_proxies urlparse ?n ''tools'' = Inr None"
    by simp
  from 1 2 3 show ?thesis by simp
qed

text \<open>
  Claim C6 as it is written fails when the effective proxy is the empty string. The object
  \<^verbatim>\<open>ProxyConfig(all_proxy="")\<close> can be built, its tools proxy is the empty string, which is
  not absent, and \<^verbatim>\<open>get_httpx_proxies\<close> returns absent, not the two prefix keys.
\<close>

theorem get_httpx_proxies_empty_counterexample:
  "ProxyConfig_init urlparse None None (Some '''')
     = Inr \<lparr>tools_proxy = None, llm_proxy = None, all_proxy = Some ''''\<rparr>
   \<and> get_tools_proxy \<lparr>tools_proxy = None, llm_proxy = None, all_proxy = Some ''''\<rparr> = Some ''''
   \<and> get_httpx_proxies urlparse \<lparr>tools_proxy = None, llm_proxy = None, all_proxy = Some ''''\<rparr>
         ''tools''
       = Inr None"
  by code_simp

text \<open>
  Claim C7, as amended. For every object and either traffic class, \<^verbatim>\<open>get_requests_proxies\<close>
  returns absent when the effective proxy is absent or the empty string, and otherwise the
  keys \<^verbatim>\<open>http\<close> and \<^verbatim>\<open>https\<close>, both holding the effective URL verbatim. No parser is
  consulted: the scheme of the proxy plays no part.
\<close>

theorem get_requests_proxies_shape:
  "get_requests_proxies c ''tools'' =
     (case get_tools_proxy c of
        None \<Rightarrow> None
      | Some u \<Rightarrow> if u = [] then None else Some [(''http'', u), (''https'', u)])
   \<and> get_requests_proxies c ''llm'' =
     (case get_llm_proxy c of
        None \<Rightarrow> None
      | Some u \<Rightarrow> if u = [] then None else Some [(''http'', u), (''https'', u)])"
  by (simp add: get_requests_proxies_def)

text \<open>
  Claim C7 as it is written fails when the effective proxy is the empty string: for the
  object \<^verbatim>\<open>ProxyConfig(all_proxy="")\<close>, which can be built, the tools proxy is the empty
  string, not absent, and \<^verbatim>\<open>get_requests_proxies\<close> returns absent instead of a mapping.
\<close>

theorem get_requests_proxies_empty_counterexample:
  "ProxyConfig_init urlparse None None (Some '''')
     = Inr \<lparr>tools_proxy = None, llm_proxy = None, all_proxy = Some ''''\<rparr>
   \<and> get_tools_proxy \<lparr>tools_proxy = None, llm_proxy = None, all_proxy = Some ''''\<rparr> = Some ''''
   \<and> get_requests_proxies \<lparr>tools_proxy = None, llm_proxy = None, all_proxy = Some ''''\<rparr> ''tools''
       = None"
  by code_simp

text \<open>
  Claim C8, as amended. \<^verbatim>\<open>get_litellm_proxy_env\<close> returns the empty mapping when the
  effective LLM proxy is absent or the empty string, and otherwise a mapping of exactly
  \<^verbatim>\<open>HTTP_PROXY\<close> and \<^verbatim>\<open>HTTPS_PROXY\<close>, both to the effective LLM proxy URL.
\<close>

theorem get_litellm_proxy_env_shape:
  "get_litellm_proxy_env c =
     (case get_llm_proxy c of
        None \<Rightarrow> []
      | Some u \<Rightarrow> if u = [] then [] else [(''HTTP_PROXY'', u), (''HTTPS_PROXY'', u)])"
  by (simp add: get_litellm_proxy_env_def split: option.splits)

text \<open>
  Claim C8 as it is written fails when the effective LLM proxy is the empty string: for the
  object \<^verbatim>\<open>ProxyConfig(all_proxy="")\<close>, which can be built, the LLM proxy is the empty
  string, not absent, and \<^verbatim>\<open>get_litellm_proxy_env\<close> returns the empty mapping instead of
  setting the two variables.
\<close>

theorem get_litellm_proxy_env_empty_counterexample:
  "ProxyConfig_init urlparse None None (Some '''')
     = Inr \<lparr>tools_proxy = None, llm_proxy = None, all_proxy = Some ''''\<rparr>
   \<and> get_llm_proxy \<lparr>tools_proxy = None, llm_proxy = None, all_proxy = Some ''''\<rparr> = Some ''''
   \<and> get_litellm_proxy_env \<lparr>tools_proxy = None, llm_proxy = None, all_proxy = Some ''''\<rparr> = []"
  by code_simp

section \<open>The empty string\<close>

lemma post_init_loop_absent_if_empty:
  "post_init_loop p (map (\<lambda>(n, x). (n, absent_if_empty x)) fs) = post_init_loop p fs"
proof (induction fs)
  case Nil
  then show ?case by simp
next
  case (Cons f fs)
  obtain n x where f: "f = (n, x)" by (cases f)
  with Cons show ?case
    by (cases x) (auto simp: absent_if_empty_def split: sum.splits)
qed

lemma ProxyConfig_init_absent_if_empty:
  "ProxyConfig_init p (absent_if_empty t) (absent_if_empty l) (absent_if_empty a) =
     (case ProxyConfig_init p t l a of Inl e \<Rightarrow> Inl e | Inr c \<Rightarrow> Inr (drop_empty c))"
proof -
  have "post_init p \<lparr>tools_proxy = absent_if_empty t, llm_proxy = absent_if_empty l,
                      all_proxy = absent_if_empty a\<rparr>
          = post_init p \<lparr>tools_proxy = t, llm_proxy = l, all_proxy = a\<rparr>"
    using post_init_loop_absent_if_empty
      [of p "[(''STRIX_PROXY_TOOLS'', t), (''STRIX_PROXY_LLM'', l), (''STRIX_PROXY_ALL'', a)]"]
    by (simp add: post_init_def del: post_init_loop.simps)
  then show ?thesis
    by (simp add: ProxyConfig_init_def Let_def drop_empty_def split: sum.splits)
qed

lemma py_or_absent_if_empty:
  "py_or (absent_if_empty x) (absent_if_empty y) = absent_if_empty (py_or x y)"
  by (auto simp: py_or_def absent_if_empty_def truthy_def split: option.splits)

lemma get_tools_proxy_drop_empty:
  "get_tools_proxy (drop_empty c) = absent_if_empty (get_tools_proxy c)"
  by (simp add: get_tools_proxy_def drop_empty_def py_or_absent_if_empty)

lemma get_llm_proxy_drop_empty:
  "get_llm_proxy (drop_empty c) = absent_if_empty (get_llm_proxy c)"
  by (simp add: get_llm_proxy_def drop_empty_def py_or_absent_if_empty)

lemma get_requests_proxies_drop_empty:
  "get_requests_proxies (drop_empty c) ty = get_requests_proxies c ty"
  by (simp add: get_requests_proxies_def get_tools_proxy_drop_empty get_llm_proxy_drop_empty
      absent_if_empty_def split: option.splits)

lemma get_httpx_proxies_drop_empty:
  "get_httpx_proxies p (drop_empty c) ty = get_httpx_proxies p c ty"
  by (simp add: get_httpx_proxies_def get_tools_proxy_drop_empty get_llm_proxy_drop_empty
      absent_if_empty_def split: option.splits)

lemma get_litellm_proxy_env_drop_empty:
  "get_litellm_proxy_env (drop_empty c) = get_litellm_proxy_env c"
  by (simp add: get_litellm_proxy_env_def get_llm_proxy_drop_empty
      absent_if_empty_def split: option.splits)

text \<open>
  Claim C9, as amended. A field given as the empty string is treated as absent by the
  constructor, by the resolution of a specific field and by every adapter, but not
  everywhere. Construction does not validate it: it succeeds with three empty fields
  whatever the parser does, and in general it succeeds or fails, with the same error,
  exactly as it does when every empty field is replaced by an absent one. Resolution falls
  through an empty specific field: with \<^verbatim>\<open>tools_proxy = ""\<close> the tools proxy is
  \<^verbatim>\<open>all_proxy\<close>, and likewise for \<^verbatim>\<open>llm_proxy\<close>. Every adapter gives the same output for an
  object and for the object with its empty fields made absent. An empty \<^verbatim>\<open>all_proxy\<close>,
  however, is returned as it stands: when the specific field is absent or empty, the
  resolved proxy is the empty string, where an absent \<^verbatim>\<open>all_proxy\<close> gives absent; the two
  resolved values agree only once the empty string is read as absent.
\<close>

theorem empty_string_treated_as_absent:
  "ProxyConfig_init p (Some []) (Some []) (Some [])
     = Inr \<lparr>tools_proxy = Some [], llm_proxy = Some [], all_proxy = Some []\<rparr>
   \<and> ProxyConfig_init p (absent_if_empty t) (absent_if_empty l) (absent_if_empty a)
     = (case ProxyConfig_init p t l a of Inl e \<Rightarrow> Inl e | Inr c \<Rightarrow> Inr (drop_empty c))
   \<and> get_tools_proxy \<lparr>tools_proxy = Some [], llm_proxy = l, all_proxy = u\<rparr> = u
   \<and> get_llm_proxy \<lparr>tools_proxy = t, llm_proxy = Some [], all_proxy = u\<rparr> = u
   \<and> get_tools_proxy \<lparr>tools_proxy = t, llm_proxy = l, all_proxy = Some []\<rparr>
       = (if truthy t then t else Some [])
   \<and> get_llm_proxy \<lparr>tools_proxy = t, llm_proxy = l, all_proxy = Some []\<rparr>
       = (if truthy l then l else Some [])
   \<and> get_tools_proxy \<lparr>tools_proxy = t, llm_proxy = l, all_proxy = None\<rparr>
       = (if truthy t then t else None)
   \<and> get_llm_proxy \<lparr>tools_proxy = t, llm_proxy = l, all_proxy = None\<rparr>
       = (if truthy l then l else None)
   \<and> get_tools_proxy (drop_empty c) = absent_if_empty (get_tools_proxy c)
   \<and> get_llm_proxy (drop_empty c) = absent_if_empty (get_llm_proxy c)
   \<and> get_requests_proxies (drop_empty c) ty = get_requests_proxies c ty
   \<and> get_httpx_proxies p (drop_empty c) ty = get_httpx_proxies p c ty
   \<and> get_litellm_proxy_env (drop_empty c) = get_litellm_proxy_env c"
proof (intro conjI)
  show "ProxyConfig_init p (Some []) (Some []) (Some [])
          = Inr \<lparr>tools_proxy = Some [], llm_proxy = Some [], all_proxy = Some []\<rparr>"
    by (simp add: ProxyConfig_init_def post_init_def)
  show "ProxyConfig_init p (absent_if_empty t) (absent_if_empty l) (absent_if_empty a)
          = (case ProxyConfig_init p t l a of Inl e \<Rightarrow> Inl e | Inr c \<Rightarrow> Inr (drop_empty c))"
    by (rule ProxyConfig_init_absent_if_empty)
  show "get_tools_proxy \<lparr>tools_proxy = Some [], llm_proxy = l, all_proxy = u\<rparr> = u"
    by (simp add: get_tools_proxy_def py_or_def truthy_def)
  show "get_llm_proxy \<lparr>tools_proxy = t, llm_proxy = Some [], all_proxy = u\<rparr> = u"
    by (simp add: get_llm_proxy_def py_or_def truthy_def)
  show "get_tools_proxy \<lparr>tools_proxy = t, llm_proxy = l, all_proxy = Some []\<rparr>
          = (if truthy t then t else Some [])"
    by (simp add: get_tools_proxy_def py_or_def)
  show "get_llm_proxy \<lparr>tools_proxy = t, llm_proxy = l, all_proxy = Some []\<rparr>
          = (if truthy l then l else Some [])"
    by (simp add: get_llm_proxy_def py_or_def)
  show "get_tools_proxy \<lparr>tools_proxy = t, llm_proxy = l, all_proxy = None\<rparr>
          = (if truthy t then t else None)"
    by (simp add: get_tools_proxy_def py_or_def)
  show "get_llm_proxy \<lparr>tools_proxy = t, llm_proxy = l, all_proxy = None\<rparr>
          = (if truthy l then l else None)"
    by (simp add: get_llm_proxy_def py_or_def)
  show "get_tools_proxy (drop_empty c) = absent_if_empty (get_tools_proxy c)"
    by (rule get_tools_proxy_drop_empty)
  show "get_llm_proxy (drop_empty c) = absent_if_empty (get_llm_proxy c)"
    by (rule get_llm_proxy_drop_empty)
  show "get_requests_proxies (drop_empty c) ty = get_requests_proxies c ty"
    by (rule get_requests_proxies_drop_empty)
  show "get_httpx_proxies p (drop_empty c) ty = get_httpx_proxies p c ty"
    by (rule get_httpx_proxies_drop_empty)
  show "get_litellm_proxy_env (drop_empty c) = get_litellm_proxy_env c"
    by (rule get_litellm_proxy_env_drop_empty)
qed

text \<open>
  Claim C9 as it is written fails for the resolution functions: an empty \<^verbatim>\<open>all_proxy\<close> is
  not treated as an absent one. With nothing else set, the resolved proxy is the empty
  string for the first object and absent for the second; both objects can be built.
\<close>

theorem empty_all_proxy_not_absent_counterexample:
  "ProxyConfig_init urlparse None None (Some '''')
     = Inr \<lparr>tools_proxy = None, llm_proxy = None, all_proxy = Some ''''\<rparr>
   \<and> ProxyConfig_init urlparse None None None
     = Inr \<lparr>tools_proxy = None, llm_proxy = None, all_proxy = None\<rparr>
   \<and> get_tools_proxy \<lparr>tools_proxy = None, llm_proxy = None, all_proxy = Some ''''\<rparr> = Some ''''
   \<and> get_tools_proxy \<lparr>tools_proxy = None, llm_proxy = None, all_proxy = None\<rparr> = None
   \<and> get_llm_proxy \<lparr>tools_proxy = None, llm_proxy = None, all_proxy = Some ''''\<rparr> = Some ''''
   \<and> get_llm_proxy \<lparr>tools_proxy = None, llm_proxy = None, all_proxy = None\<rparr> = None"
  by code_simp

section \<open>The traffic class parameter\<close>

text \<open>
  Claim C10. For every string \<^verbatim>\<open>proxy_type\<close> other than exactly \<^verbatim>\<open>"tools"\<close>, both
  \<^verbatim>\<open>get_requests_proxies\<close> and \<^verbatim>\<open>get_httpx_proxies\<close> resolve the LLM proxy: the result is
  computed from the value of \<^verbatim>\<open>get_llm_proxy\<close> and from nothing else of the object, and it
  is what the call with \<^verbatim>\<open>"llm"\<close> returns. For \<^verbatim>\<open>get_requests_proxies\<close> that is the two keys
  holding the LLM proxy; for \<^verbatim>\<open>get_httpx_proxies\<close> it is what the parser's answer on the
  LLM proxy decides: the sentinel key or the two prefix keys, holding the LLM proxy. No
  value of \<^verbatim>\<open>proxy_type\<close> raises: \<^verbatim>\<open>get_requests_proxies\<close> has no failing path at all, and
  on an object the constructor has built the LLM proxy has passed validation, so the parser
  answers and \<^verbatim>\<open>get_httpx_proxies\<close> returns a result for every string.
\<close>

theorem proxy_type_falls_back_to_llm:
  "(ty \<noteq> ''tools'' \<longrightarrow>
      get_requests_proxies c ty = get_requests_proxies c ''llm''
      \<and> get_requests_proxies c ty =
          (case get_llm_proxy c of
             None \<Rightarrow> None
           | Some u \<Rightarrow> if u = [] then None else Some [(''http'', u), (''https'', u)])
      \<and> get_httpx_proxies p c ty = get_httpx_proxies p c ''llm''
      \<and> get_httpx_proxies p c ty =
          (case get_llm_proxy c of
             None \<Rightarrow> Inr None
           | Some u \<Rightarrow>
               if u = [] then Inr None
               else
                 (case p u of
                    Inl e \<Rightarrow> Inl e
                  | Inr r \<Rightarrow>
                      Inr (Some (if scheme r \<in> {''socks5'', ''socks5h''}
                                 then [(''_socks_proxy'', u)]
                                 else [(''http://'', u), (''https://'', u)]))))
      \<and> (ProxyConfig_init p t l a = Inr c \<longrightarrow>
            (case get_llm_proxy c of
               None \<Rightarrow> get_httpx_proxies p c ty = Inr None
             | Some u \<Rightarrow>
                 if u = [] then get_httpx_proxies p c ty = Inr None
                 else (\<exists>r. p u = Inr r
                         \<and> get_httpx_proxies p c ty =
                             Inr (Some (if scheme r \<in> {''socks5'', ''socks5h''}
                                        then [(''_socks_proxy'', u)]
                                        else [(''http://'', u), (''https://'', u)]))))))
   \<and> (ProxyConfig_init p t l a = Inr c \<longrightarrow> (\<exists>d. get_httpx_proxies p c ty = Inr d))"
proof (intro conjI impI)
  assume nt: "ty \<noteq> ''tools''"
  then show "get_requests_proxies c ty = get_requests_proxies c ''llm''"
    and "get_requests_proxies c ty =
          (case get_llm_proxy c of
             None \<Rightarrow> None
           | Some u \<Rightarrow> if u = [] then None else Some [(''http'', u), (''https'', u)])"
    and "get_httpx_proxies p c ty = get_httpx_proxies p c ''llm''"
    by (simp_all add: get_requests_proxies_def get_httpx_proxies_def)
  from nt show "get_httpx_proxies p c ty =
          (case get_llm_proxy c of
             None \<Rightarrow> Inr None
           | Some u \<Rightarrow>
               if u = [] then Inr None
               else
                 (case p u of
                    Inl e \<Rightarrow> Inl e
                  | Inr r \<Rightarrow>
                      Inr (Some (if scheme r \<in> {''socks5'', ''socks5h''}
                                 then [(''_socks_proxy'', u)]
                                 else [(''http://'', u), (''https://'', u)]))))"
    by (simp add: get_httpx_proxies_def split: option.splits sum.splits)
  assume init: "ProxyConfig_init p t l a = Inr c"
  show "case get_llm_proxy c of
               None \<Rightarrow> get_httpx_proxies p c ty = Inr None
             | Some u \<Rightarrow>
                 if u = [] then get_httpx_proxies p c ty = Inr None
                 else (\<exists>r. p u = Inr r
                         \<and> get_httpx_proxies p c ty =
                             Inr (Some (if scheme r \<in> {''socks5'', ''socks5h''}
                                        then [(''_socks_proxy'', u)]
                                        else [(''http://'', u), (''https://'', u)])))"
  proof (cases "get_llm_proxy c")
    case None
    with nt show ?thesis using httpx_of_absent [of ty c p] by simp
  next
    case (Some u)
    show ?thesis
    proof (cases "u = []")
      case True
      with Some nt show ?thesis using httpx_of_empty [of ty c p] by simp
    next
      case False
      from effective_llm_valid [OF init Some False] obtain r where r: "p u = Inr r"
        using valid_parses by blast
      from httpx_of_llm [of c u p r ty, OF Some False r nt] Some False r
      show ?thesis by simp
    qed
  qed
next
  assume init: "ProxyConfig_init p t l a = Inr c"
  let ?eff = "if ty = ''tools'' then get_tools_proxy c else get_llm_proxy c"
  show "\<exists>d. get_httpx_proxies p c ty = Inr d"
  proof (cases ?eff)
    case None
    then show ?thesis using httpx_of_absent [of ty c p] by simp
  next
    case (Some u)
    show ?thesis
    proof (cases "u = []")
      case True
      with Some show ?thesis using httpx_of_empty [of ty c p] by simp
    next
      case False
      from effective_valid [OF init Some False] obtain r where r: "p u = Inr r"
        using valid_parses by blast
      from httpx_of_url [of ty c u p r, OF Some False r] show ?thesis by simp
    qed
  qed
qed

text \<open>
  Instances with the parser of the examples: the strings \<^verbatim>\<open>"llms"\<close> and \<^verbatim>\<open>""\<close> select the
  LLM proxy of an object whose tools proxy is a different one. Both results are read off
  the theorem from the value of \<^verbatim>\<open>get_llm_proxy\<close> and the parser's answer on it.
\<close>

theorem proxy_type_falls_back_to_llm_witness:
  "get_requests_proxies
       \<lparr>tools_proxy = Some ''http://a:1'', llm_proxy = Some ''socks5://p:1080'', all_proxy = None\<rparr>
       ''llms''
     = Some [(''http'', ''socks5://p:1080''), (''https'', ''socks5://p:1080'')]
   \<and> get_httpx_proxies urlparse
       \<lparr>tools_proxy = Some ''http://a:1'', llm_proxy = Some ''socks5://p:1080'', all_proxy = None\<rparr>
       ''''
     = Inr (Some [(''_socks_proxy'', ''socks5://p:1080'')])
   \<and> get_tools_proxy
       \<lparr>tools_proxy = Some ''http://a:1'', llm_proxy = Some ''socks5://p:1080'', all_proxy = None\<rparr>
     = Some ''http://a:1''"
proof -
  let ?c = "\<lparr>tools_proxy = Some ''http://a:1'', llm_proxy = Some ''socks5://p:1080'',
             all_proxy = None\<rparr>"
  have c: "ProxyConfig_init urlparse (Some ''http://a:1'') (Some ''socks5://p:1080'') None = Inr ?c"
    by code_simp
  have l: "get_llm_proxy ?c = Some ''socks5://p:1080''" by code_simp
  have tl: "get_tools_proxy ?c = Some ''http://a:1''" by code_simp
  have n1: "''llms'' \<noteq> ''tools''" and n2: "'''' \<noteq> ''tools''" by simp_all
  from proxy_type_falls_back_to_llm
    [of "''llms''" ?c urlparse "Some ''http://a:1''" "Some ''socks5://p:1080''" None] n1
  have "get_requests_proxies ?c ''llms'' =
          (case get_llm_proxy ?c of
             None \<Rightarrow> None
           | Some u \<Rightarrow> if u = [] then None else Some [(''http'', u), (''https'', u)])"
    by blast
  with l have 1: "get_requests_proxies ?c ''llms''
             = Some [(''http'', ''socks5://p:1080''), (''https'', ''socks5://p:1080'')]"
    by simp
  from proxy_type_falls_back_to_llm
    [of "''''" ?c urlparse "Some ''http://a:1''" "Some ''socks5://p:1080''" None] n2 c
  have "case get_llm_proxy ?c of
               None \<Rightarrow> get_httpx_proxies urlparse ?c '''' = Inr None
             | Some u \<Rightarrow>
                 if u = [] then get_httpx_proxies urlparse ?c '''' = Inr None
                 else (\<exists>r. urlparse u = Inr r
                         \<and> get_httpx_proxies urlparse ?c '''' =
                             Inr (Some (if scheme r \<in> {''socks5'', ''socks5h''}
                                        then [(''_socks_proxy'', u)]
                                        else [(''http://'', u), (''https://'', u)])))"
    by blast
  with l obtain r where r: "urlparse ''socks5://p:1080'' = Inr r"
    and res: "get_httpx_proxies urlparse ?c '''' =
                Inr (Some (if scheme r \<in> {''socks5'', ''socks5h''}
                           then [(''_socks_proxy'', ''socks5://p:1080'')]
                           else [(''http://'', ''socks5://p:1080''),
                                 (''https://'', ''socks5://p:1080'')]))"
    by auto
  have "urlparse ''socks5://p:1080''
          = Inr \<lparr>scheme = ''socks5'', hostname = Some ''p'', port = Inr (Some 1080)\<rparr>"
    by code_simp
  with r have "scheme r = ''socks5''" by auto
  with res have 2: "get_httpx_proxies urlparse ?c '''' = Inr (Some [(''_socks_proxy'', ''socks5://p:1080'')])"
    by simp
  from 1 2 tl show ?thesis by simp
qed

section \<open>The loader\<close>

lemma set_environ_fields:
  "allocated (set_environ d s) = allocated s
   \<and> global_proxy_config (set_environ d s) = global_proxy_config s"
  by (induction d arbitrary: s) auto

lemma set_environ_environ:
  "environ (set_environ d s) = environ s ++ map_of (rev d)"
proof (induction d arbitrary: s)
  case Nil
  then show ?case by simp
next
  case (Cons kv d)
  obtain k v where kv: "kv = (k, v)" by (cases kv)
  have "set_environ (kv # d) s = set_environ d (s\<lparr>environ := (environ s)(k \<mapsto> v)\<rparr>)"
    using kv by simp
  then have "environ (set_environ (kv # d) s)
               = environ (s\<lparr>environ := (environ s)(k \<mapsto> v)\<rparr>) ++ map_of (rev d)"
    by (simp only: Cons)
  also have "\<dots> = (environ s)(k \<mapsto> v) ++ map_of (rev d)"
    by simp
  also have "\<dots> = environ s ++ map_of (rev (kv # d))"
    using kv by (simp add: map_add_upd_left fun_eq_iff map_add_def split: option.splits)
  finally show ?case .
qed

lemma set_environ_eq:
  "set_environ d s = s\<lparr>environ := environ s ++ map_of (rev d)\<rparr>"
proof -
  have "environ (set_environ d s) = environ s ++ map_of (rev d)"
    by (rule set_environ_environ)
  moreover have "allocated (set_environ d s) = allocated s"
    and "global_proxy_config (set_environ d s) = global_proxy_config s"
    using set_environ_fields [of d s] by simp_all
  ultimately show ?thesis by simp
qed

lemma litellm_env_rev:
  "map_of (rev (get_litellm_proxy_env c)) = map_of (get_litellm_proxy_env c)"
  by (auto simp: get_litellm_proxy_env_def fun_eq_iff split: option.splits)

lemma litellm_env_keys:
  "k \<notin> {''HTTP_PROXY'', ''HTTPS_PROXY''} \<Longrightarrow> map_of (get_litellm_proxy_env c) k = None"
  by (auto simp: get_litellm_proxy_env_def split: option.splits)

lemma configure_global_proxies_eq:
  "configure_global_proxies p s =
     (case ProxyConfig_init p (environ s ''STRIX_PROXY_TOOLS'') (environ s ''STRIX_PROXY_LLM'')
             (environ s ''STRIX_PROXY_ALL'') of
        Inl e \<Rightarrow> (Inl e, s)
      | Inr c \<Rightarrow>
          (Inr (allocated s, c),
           s\<lparr>environ := environ s ++ map_of (get_litellm_proxy_env c),
             allocated := Suc (allocated s)\<rparr>))"
  by (simp add: configure_global_proxies_def load_proxy_config_def getenv_def set_environ_eq
      litellm_env_rev split: sum.splits)

text \<open>
  Claim C4. \<^verbatim>\<open>configure_global_proxies\<close> builds a \<^verbatim>\<open>ProxyConfig\<close> from the three
  \<^verbatim>\<open>STRIX_PROXY_*\<close> variables of the environment. When construction fails the error is
  passed on and the state is left as it was. When it succeeds, the new object is returned
  and the mapping of \<^verbatim>\<open>get_litellm_proxy_env\<close> is written over the environment: a key of
  the mapping gets its value whatever it held before, so with an effective LLM proxy both
  \<^verbatim>\<open>HTTP_PROXY\<close> and \<^verbatim>\<open>HTTPS_PROXY\<close> hold its URL afterwards, and every variable other than
  these two keeps its value. The module's global variable is not touched.
\<close>

theorem configure_global_proxies_effect:
  "(case ProxyConfig_init p (environ s ''STRIX_PROXY_TOOLS'') (environ s ''STRIX_PROXY_LLM'')
           (environ s ''STRIX_PROXY_ALL'') of
      Inl e \<Rightarrow> configure_global_proxies p s = (Inl e, s)
    | Inr c \<Rightarrow>
        (\<exists>s'. configure_global_proxies p s = (Inr (allocated s, c), s')
           \<and> (\<forall>k. environ s' k =
                 (case map_of (get_litellm_proxy_env c) k of
                    None \<Rightarrow> environ s k
                  | Some v \<Rightarrow> Some v))
           \<and> (\<forall>u. get_llm_proxy c = Some u \<and> u \<noteq> [] \<longrightarrow>
                 environ s' ''HTTP_PROXY'' = Some u \<and> environ s' ''HTTPS_PROXY'' = Some u)
           \<and> (\<forall>k. k \<notin> {''HTTP_PROXY'', ''HTTPS_PROXY''} \<longrightarrow> environ s' k = environ s k)
           \<and> allocated s' = Suc (allocated s)
           \<and> global_proxy_config s' = global_proxy_config s))"
proof (cases "ProxyConfig_init p (environ s ''STRIX_PROXY_TOOLS'') (environ s ''STRIX_PROXY_LLM'')
           (environ s ''STRIX_PROXY_ALL'')")
  case (Inl e)
  then show ?thesis by (simp add: configure_global_proxies_eq)
next
  case (Inr c)
  let ?s' = "s\<lparr>environ := environ s ++ map_of (get_litellm_proxy_env c),
               allocated := Suc (allocated s)\<rparr>"
  have run: "configure_global_proxies p s = (Inr (allocated s, c), ?s')"
    using Inr by (simp add: configure_global_proxies_eq)
  have look: "\<forall>k. environ ?s' k =
                 (case map_of (get_litellm_proxy_env c) k of
                    None \<Rightarrow> environ s k
                  | Some v \<Rightarrow> Some v)"
    by (simp add: map_add_def)
  have llm: "\<forall>u. get_llm_proxy c = Some u \<and> u \<noteq> [] \<longrightarrow>
                 environ ?s' ''HTTP_PROXY'' = Some u \<and> environ ?s' ''HTTPS_PROXY'' = Some u"
    by (simp add: map_add_def get_litellm_proxy_env_def)
  have frame: "\<forall>k. k \<notin> {''HTTP_PROXY'', ''HTTPS_PROXY''} \<longrightarrow> environ ?s' k = environ s k"
    using litellm_env_keys [of _ c] by (simp add: map_add_def)
  have rest: "allocated ?s' = Suc (allocated s)"
    "global_proxy_config ?s' = global_proxy_config s"
    by simp_all
  from run look llm frame rest
  have "\<exists>s'. configure_global_proxies p s = (Inr (allocated s, c), s')
           \<and> (\<forall>k. environ s' k =
                 (case map_of (get_litellm_proxy_env c) k of
                    None \<Rightarrow> environ s k
                  | Some v \<Rightarrow> Some v))
           \<and> (\<forall>u. get_llm_proxy c = Some u \<and> u \<noteq> [] \<longrightarrow>
                 environ s' ''HTTP_PROXY'' = Some u \<and> environ s' ''HTTPS_PROXY'' = Some u)
           \<and> (\<forall>k. k \<notin> {''HTTP_PROXY'', ''HTTPS_PROXY''} \<longrightarrow> environ s' k = environ s k)
           \<and> allocated s' = Suc (allocated s)
           \<and> global_proxy_config s' = global_proxy_config s"
    by blast
  with Inr show ?thesis by simp
qed

text \<open>
  An instance with the parser of the examples: a catch-all proxy is set, \<^verbatim>\<open>HTTP_PROXY\<close>
  already holds another value and \<^verbatim>\<open>PATH\<close> is set. Afterwards both proxy variables hold
  the catch-all URL and \<^verbatim>\<open>PATH\<close> is as before.
\<close>

theorem configure_global_proxies_effect_witness:
  "(let s = \<lparr>environ = [''STRIX_PROXY_ALL'' \<mapsto> ''http://p:8080'', ''HTTP_PROXY'' \<mapsto> ''http://old:1'',
                         ''PATH'' \<mapsto> ''/bin''],
              allocated = 0, global_proxy_config = None\<rparr>;
        r = configure_global_proxies urlparse s
    in fst r = Inr (0, \<lparr>tools_proxy = None, llm_proxy = None, all_proxy = Some ''http://p:8080''\<rparr>)
       \<and> environ (snd r) ''HTTP_PROXY'' = Some ''http://p:8080''
       \<and> environ (snd r) ''HTTPS_PROXY'' = Some ''http://p:8080''
       \<and> environ (snd r) ''PATH'' = Some ''/bin''
       \<and> environ (snd r) ''STRIX_PROXY_ALL'' = Some ''http://p:8080'')"
proof -
  let ?s = "\<lparr>environ = [''STRIX_PROXY_ALL'' \<mapsto> ''http://p:8080'', ''HTTP_PROXY'' \<mapsto> ''http://old:1'',
                         ''PATH'' \<mapsto> ''/bin''],
              allocated = 0, global_proxy_config = None\<rparr>"
  let ?c = "\<lparr>tools_proxy = None, llm_proxy = None, all_proxy = Some ''http://p:8080''\<rparr>"
  have c: "ProxyConfig_init urlparse None None (Some ''http://p:8080'') = Inr ?c"
    by code_simp
  have l: "get_llm_proxy ?c = Some ''http://p:8080''" by code_simp
  have e: "environ ?s ''STRIX_PROXY_TOOLS'' = None" "environ ?s ''STRIX_PROXY_LLM'' = None"
    "environ ?s ''STRIX_PROXY_ALL'' = Some ''http://p:8080''" "environ ?s ''PATH'' = Some ''/bin''"
    by simp_all
  from configure_global_proxies_effect [of urlparse ?s] c e
  obtain s' where run: "configure_global_proxies urlparse ?s = (Inr (0, ?c), s')"
    and llm: "\<forall>u. get_llm_proxy ?c = Some u \<and> u \<noteq> [] \<longrightarrow>
                 environ s' ''HTTP_PROXY'' = Some u \<and> environ s' ''HTTPS_PROXY'' = Some u"
    and frame: "\<forall>k. k \<notin> {''HTTP_PROXY'', ''HTTPS_PROXY''} \<longrightarrow> environ s' k = environ ?s k"
    by auto
  from llm l have 1: "environ s' ''HTTP_PROXY'' = Some ''http://p:8080''"
    and 2: "environ s' ''HTTPS_PROXY'' = Some ''http://p:8080''"
    by simp_all
  from frame e have 3: "environ s' ''PATH'' = Some ''/bin''"
    and 4: "environ s' ''STRIX_PROXY_ALL'' = Some ''http://p:8080''"
    by simp_all
  from run 1 2 3 4 show ?thesis by (simp add: Let_def)
qed

section \<open>The process-wide instance\<close>



end
